theory Spec2Isabelle
  imports Complex_Main
begin

section \<open>The Wilderness death map: data model\<close>

text \<open>
  The program is one React component, \<^verbatim>\<open>src/src/App.jsx\<close>: a table of five hotspots, a
  generator of random death locations around them, and a routine that paints the map
  image, the deaths and the hotspot outlines on a canvas.

  JavaScript numbers are modelled as real numbers: rounding of the double format is not
  part of the model. \<^verbatim>\<open>Math.random()\<close> is modelled by an explicit source of draws that
  is threaded through the generator.
\<close>

record hotspot =
  hx :: real
  hy :: real
  radius :: real
  density :: real
  name :: string

record death =
  dx :: real
  dy :: real

text \<open>The table \<^verbatim>\<open>HOTSPOTS\<close> (App.jsx, lines 8 to 19).\<close>

definition HOTSPOTS :: "hotspot list" where
  "HOTSPOTS =
    [\<lparr>hx = 150, hy = 700, radius = 80, density = 0.4, name = ''Edgeville Wilderness (Lvl 1-5)''\<rparr>,
     \<lparr>hx = 650, hy = 150, radius = 70, density = 0.3, name = ''Chaos Altar / Temple''\<rparr>,
     \<lparr>hx = 400, hy = 400, radius = 90, density = 0.5, name = ''Revenant Caves Entrance''\<rparr>,
     \<lparr>hx = 600, hy = 550, radius = 60, density = 0.25, name = ''Wilderness Slayer/Lava Dragons''\<rparr>,
     \<lparr>hx = 400, hy = 100, radius = 100, density = 0.35, name = ''Deep Wilderness Bosses''\<rparr>]"

section \<open>The random source\<close>

text \<open>
  A source of draws is the sequence of the numbers that the coming calls of
  \<^verbatim>\<open>Math.random()\<close> return. A call returns the first one and leaves the rest.
  \<^verbatim>\<open>Math.random()\<close> returns numbers of the interval from 0 (included) to 1 (excluded):
  \<open>valid_rng\<close> says so of a source.
\<close>

type_synonym rng = "nat \<Rightarrow> real"

definition Math_random :: "rng \<Rightarrow> real \<times> rng" where
  "Math_random g = (g 0, \<lambda>n. g (Suc n))"

definition valid_rng :: "rng \<Rightarrow> bool" where
  "valid_rng g \<longleftrightarrow> (\<forall>n. 0 \<le> g n \<and> g n < 1)"

section \<open>The generator\<close>

text \<open>
  Reading \<^verbatim>\<open>HOTSPOTS[hotspotIndex]\<close> outside the array gives \<^verbatim>\<open>undefined\<close>, and the
  property access \<^verbatim>\<open>chosenHotspot.radius\<close> on it throws a TypeError.
\<close>

datatype error = TypeError

definition index :: "'a list \<Rightarrow> int \<Rightarrow> 'a option" where
  "index xs i = (if 0 \<le> i \<and> i < int (length xs) then Some (xs ! nat i) else None)"

definition mapWidth :: real where
  "mapWidth = 800"

definition mapHeight :: real where
  "mapHeight = 800"

text \<open>
  One round of the loop of \<^verbatim>\<open>generateDeathData\<close> (lines 28 to 51), over a hotspot
  table \<open>hs\<close>: the death it pushes and the source it leaves. The draws are taken in the
  order of the source text: the hotspot chance, then either the hotspot index, the angle
  and the radial draw, or the two coordinates.
\<close>

definition generateDeath :: "hotspot list \<Rightarrow> rng \<Rightarrow> error + (death \<times> rng)" where
  "generateDeath hs g0 =
    (let (hotspotChance, g1) = Math_random g0 in
     if hotspotChance < 0.8 then
       (let (u1, g2) = Math_random g1;
            hotspotIndex = \<lfloor>u1 * real (length hs)\<rfloor>;
            chosenHotspot = index hs hotspotIndex;
            (u2, g3) = Math_random g2;
            angle = u2 * 2 * pi
        in case chosenHotspot of
             None \<Rightarrow> Inl TypeError
           | Some h \<Rightarrow>
               (let (u3, g4) = Math_random g3;
                    r = radius h * sqrt u3;
                    x = hx h + r * cos angle;
                    y = hy h + r * sin angle
                in Inr (\<lparr>dx = max 0 (min mapWidth x), dy = max 0 (min mapHeight y)\<rparr>, g4)))
     else
       (let (u1, g2) = Math_random g1;
            x = u1 * mapWidth;
            (u2, g3) = Math_random g2;
            y = u2 * mapHeight
        in Inr (\<lparr>dx = max 0 (min mapWidth x), dy = max 0 (min mapHeight y)\<rparr>, g3)))"

text \<open>
  The loop \<^verbatim>\<open>for (let i = 0; i < numDeaths; i++)\<close>, with the array \<^verbatim>\<open>deaths\<close> as
  accumulator.
\<close>

function generateDeathData_loop ::
  "hotspot list \<Rightarrow> int \<Rightarrow> int \<Rightarrow> rng \<Rightarrow> death list \<Rightarrow> error + (death list \<times> rng)" where
  "generateDeathData_loop hs numDeaths i g deaths =
    (if i < numDeaths then
       (case generateDeath hs g of
          Inl e \<Rightarrow> Inl e
        | Inr (d, g') \<Rightarrow> generateDeathData_loop hs numDeaths (i + 1) g' (deaths @ [d]))
     else Inr (deaths, g))"
  by pat_completeness auto
termination
  by (relation "measure (\<lambda>(hs, numDeaths, i, g, deaths). nat (numDeaths - i))") auto

text \<open>
  \<^verbatim>\<open>generateDeathData\<close> over a hotspot table; the parameter \<^verbatim>\<open>numDeaths\<close> defaults to
  2000 when the caller passes none. The result is the array of deaths, with the source of
  draws as the calls have left it.
\<close>

definition generateDeathData_with ::
  "hotspot list \<Rightarrow> int option \<Rightarrow> rng \<Rightarrow> error + (death list \<times> rng)" where
  "generateDeathData_with hs arg g =
    (let numDeaths = (case arg of None \<Rightarrow> 2000 | Some n \<Rightarrow> n)
     in generateDeathData_loop hs numDeaths 0 g [])"

text \<open>The function of the program: the table is the module's \<^verbatim>\<open>HOTSPOTS\<close>.\<close>

definition generateDeathData :: "int option \<Rightarrow> rng \<Rightarrow> error + (death list \<times> rng)" where
  "generateDeathData arg g = generateDeathData_with HOTSPOTS arg g"

section \<open>The canvas\<close>

text \<open>
  The surface is a canvas element with its 2D drawing context. The model keeps what the
  program can set or cause: the two dimensions of the element, the drawing state of the
  context (styles, font, the current path), and the list of what has been painted on the
  bitmap since it was last blank, in order. Two surfaces with the same dimensions and the
  same list of paintings show the same pixels.
\<close>

record dimensions =
  width :: real
  height :: real

datatype arc = Arc real real real real real
  \<comment> \<open>\<^verbatim>\<open>arc(x, y, radius, startAngle, endAngle)\<close>\<close>

datatype paint =
    Image dimensions real real real real
      \<comment> \<open>\<^verbatim>\<open>drawImage(img, dx, dy, dWidth, dHeight)\<close>, the image given by its own size\<close>
  | Fill "arc list" string
      \<comment> \<open>\<^verbatim>\<open>fill()\<close>: the current path and the fill style\<close>
  | Stroke "arc list" string real
      \<comment> \<open>\<^verbatim>\<open>stroke()\<close>: the current path, the stroke style and the line width\<close>
  | Text string real real string string
      \<comment> \<open>\<^verbatim>\<open>fillText(text, x, y)\<close>, with the fill style and the font\<close>
  | Clear real real real real
      \<comment> \<open>\<^verbatim>\<open>clearRect(x, y, w, h)\<close> of a part of the bitmap\<close>

record context2d =
  fillStyle :: string
  strokeStyle :: string
  lineWidth :: real
  font :: string
  path :: "arc list"
  painted :: "paint list"

record canvas = dimensions +
  ctx :: context2d

text \<open>The state of a context of a new or resized canvas.\<close>

definition default_context :: context2d where
  "default_context =
    \<lparr>fillStyle = ''#000000'', strokeStyle = ''#000000'', lineWidth = 1,
     font = ''10px sans-serif'', path = [], painted = []\<rparr>"

text \<open>
  Assigning to \<^verbatim>\<open>canvas.width\<close> or \<^verbatim>\<open>canvas.height\<close> blanks the bitmap and resets
  the context. The element keeps a whole number of pixels: what it keeps of the number
  assigned is the browser's conversion, a parameter \<open>conv\<close> of the model.
\<close>

definition set_width :: "(real \<Rightarrow> real) \<Rightarrow> real \<Rightarrow> canvas \<Rightarrow> canvas" where
  "set_width conv v c = c\<lparr>width := conv v, ctx := default_context\<rparr>"

definition set_height :: "(real \<Rightarrow> real) \<Rightarrow> real \<Rightarrow> canvas \<Rightarrow> canvas" where
  "set_height conv v c = c\<lparr>height := conv v, ctx := default_context\<rparr>"

text \<open>
  \<^verbatim>\<open>clearRect\<close> over the whole bitmap leaves it blank; over a part of it, it is one
  more painting.
\<close>

definition clearRect :: "real \<Rightarrow> real \<Rightarrow> real \<Rightarrow> real \<Rightarrow> canvas \<Rightarrow> canvas" where
  "clearRect x y w h c =
    (if x \<le> 0 \<and> y \<le> 0 \<and> width c \<le> x + w \<and> height c \<le> y + h
     then c\<lparr>ctx := (ctx c)\<lparr>painted := []\<rparr>\<rparr>
     else c\<lparr>ctx := (ctx c)\<lparr>painted := painted (ctx c) @ [Clear x y w h]\<rparr>\<rparr>)"

definition drawImage :: "dimensions \<Rightarrow> real \<Rightarrow> real \<Rightarrow> real \<Rightarrow> real \<Rightarrow> canvas \<Rightarrow> canvas" where
  "drawImage img x y w h c = c\<lparr>ctx := (ctx c)\<lparr>painted := painted (ctx c) @ [Image img x y w h]\<rparr>\<rparr>"

definition beginPath :: "canvas \<Rightarrow> canvas" where
  "beginPath c = c\<lparr>ctx := (ctx c)\<lparr>path := []\<rparr>\<rparr>"

definition arc :: "real \<Rightarrow> real \<Rightarrow> real \<Rightarrow> real \<Rightarrow> real \<Rightarrow> canvas \<Rightarrow> canvas" where
  "arc x y r a0 a1 c = c\<lparr>ctx := (ctx c)\<lparr>path := path (ctx c) @ [Arc x y r a0 a1]\<rparr>\<rparr>"

definition set_fillStyle :: "string \<Rightarrow> canvas \<Rightarrow> canvas" where
  "set_fillStyle v c = c\<lparr>ctx := (ctx c)\<lparr>fillStyle := v\<rparr>\<rparr>"

definition set_strokeStyle :: "string \<Rightarrow> canvas \<Rightarrow> canvas" where
  "set_strokeStyle v c = c\<lparr>ctx := (ctx c)\<lparr>strokeStyle := v\<rparr>\<rparr>"

definition set_lineWidth :: "real \<Rightarrow> canvas \<Rightarrow> canvas" where
  "set_lineWidth v c = c\<lparr>ctx := (ctx c)\<lparr>lineWidth := v\<rparr>\<rparr>"

definition set_font :: "string \<Rightarrow> canvas \<Rightarrow> canvas" where
  "set_font v c = c\<lparr>ctx := (ctx c)\<lparr>font := v\<rparr>\<rparr>"

definition fill :: "canvas \<Rightarrow> canvas" where
  "fill c =
    c\<lparr>ctx := (ctx c)\<lparr>painted := painted (ctx c) @ [Fill (path (ctx c)) (fillStyle (ctx c))]\<rparr>\<rparr>"

definition stroke :: "canvas \<Rightarrow> canvas" where
  "stroke c =
    c\<lparr>ctx := (ctx c)\<lparr>painted := painted (ctx c) @
      [Stroke (path (ctx c)) (strokeStyle (ctx c)) (lineWidth (ctx c))]\<rparr>\<rparr>"

definition fillText :: "string \<Rightarrow> real \<Rightarrow> real \<Rightarrow> canvas \<Rightarrow> canvas" where
  "fillText t x y c =
    c\<lparr>ctx := (ctx c)\<lparr>painted := painted (ctx c) @
      [Text t x y (fillStyle (ctx c)) (font (ctx c))]\<rparr>\<rparr>"

section \<open>The component\<close>

text \<open>
  The state of \<^verbatim>\<open>App\<close>: the canvas that \<^verbatim>\<open>canvasRef.current\<close> refers to (none before
  the component is mounted), the three values kept with \<^verbatim>\<open>useState\<close>, and the lines
  written with \<^verbatim>\<open>console.error\<close>.
\<close>

record app =
  canvasRef :: "canvas option"
  mapLoaded :: bool
  deaths :: "death list"
  canvasDimensions :: dimensions
  console :: "string list"

text \<open>
  What the browser contributes to one call of \<^verbatim>\<open>drawMap\<close>: which of the two handlers
  of the image runs (\<^verbatim>\<open>onload\<close>, with the image and its size, or \<^verbatim>\<open>onerror\<close>), the
  \<^verbatim>\<open>offsetWidth\<close> of the element that holds the canvas, and the conversion of a canvas
  dimension. The handler runs in the state in which \<^verbatim>\<open>drawMap\<close> was called: loads that
  overlap are not modelled.
\<close>

datatype load_event = Load dimensions | Error

record browser =
  load :: load_event
  offsetWidth :: real
  dimension :: "real \<Rightarrow> real"

text \<open>
  The handler \<^verbatim>\<open>img.onload\<close> (lines 75 to 112), over a hotspot table \<open>hs\<close>; \<open>ds\<close> is the
  \<^verbatim>\<open>deaths\<close> of the closure.
\<close>

definition img_onload_with ::
  "hotspot list \<Rightarrow> browser \<Rightarrow> dimensions \<Rightarrow> canvas \<Rightarrow> death list \<Rightarrow> app \<Rightarrow> app" where
  "img_onload_with hs b img cv ds s =
    (let s1 = s\<lparr>mapLoaded := True\<rparr>;
         aspectRatio = width img / height img;
         containerWidth = offsetWidth b;
         newWidth = containerWidth;
         newHeight = containerWidth / aspectRatio;
         c1 = set_width (dimension b) newWidth cv;
         c2 = set_height (dimension b) newHeight c1;
         s2 = s1\<lparr>canvasDimensions := \<lparr>width = newWidth, height = newHeight\<rparr>\<rparr>;
         c3 = clearRect 0 0 (width c2) (height c2) c2;
         c4 = drawImage img 0 0 (width c3) (height c3) c3;
         scaleX = newWidth / 800;
         scaleY = newHeight / 800;
         c5 = fold (\<lambda>death c.
                fill (set_fillStyle ''rgba(255, 0, 0, 0.5)''
                  (arc (dx death * scaleX) (dy death * scaleY) 2 0 (pi * 2) (beginPath c))))
                ds c4;
         c6 = fold (\<lambda>hotspot c.
                stroke (set_lineWidth 1 (set_strokeStyle ''rgba(0, 255, 255, 0.3)''
                  (arc (hx hotspot * scaleX) (hy hotspot * scaleY) (radius hotspot * scaleX)
                     0 (pi * 2) (beginPath c)))))
                hs c5
     in s2\<lparr>canvasRef := Some c6\<rparr>)"

text \<open>The handler of the program: the table is the module's \<^verbatim>\<open>HOTSPOTS\<close>.\<close>

definition img_onload :: "browser \<Rightarrow> dimensions \<Rightarrow> canvas \<Rightarrow> death list \<Rightarrow> app \<Rightarrow> app" where
  "img_onload b img cv ds s = img_onload_with HOTSPOTS b img cv ds s"

text \<open>The handler \<^verbatim>\<open>img.onerror\<close> (lines 113 to 120).\<close>

definition img_onerror :: "canvas \<Rightarrow> app \<Rightarrow> app" where
  "img_onerror cv s =
    (let s1 = s\<lparr>console := console s @ [''Failed to load Wilderness map image.'']\<rparr>;
         c1 = clearRect 0 0 (width cv) (height cv) cv;
         c2 = set_fillStyle ''white'' c1;
         c3 = set_font ''20px Arial'' c2;
         c4 = fillText ''Failed to load map image. Please check URL.'' 10 50 c3
     in s1\<lparr>canvasRef := Some c4\<rparr>)"

text \<open>
  \<^verbatim>\<open>drawMap\<close> (lines 68 to 121), over a hotspot table: nothing without a canvas;
  otherwise the image is requested and one of its two handlers runs.
\<close>

definition drawMap_with :: "hotspot list \<Rightarrow> browser \<Rightarrow> app \<Rightarrow> app" where
  "drawMap_with hs b s =
    (case canvasRef s of
       None \<Rightarrow> s
     | Some cv \<Rightarrow>
         (case load b of
            Load img \<Rightarrow> img_onload_with hs b img cv (deaths s) s
          | Error \<Rightarrow> img_onerror cv s))"

definition drawMap :: "browser \<Rightarrow> app \<Rightarrow> app" where
  "drawMap b s = drawMap_with HOTSPOTS b s"

text \<open>
  The listener of the window's \<^verbatim>\<open>resize\<close> event (lines 125 to 130), over a hotspot
  table, and the one of the program.
\<close>

definition handleResize_with :: "hotspot list \<Rightarrow> browser \<Rightarrow> app \<Rightarrow> app" where
  "handleResize_with hs b s = (if mapLoaded s then drawMap_with hs b s else s)"

definition handleResize :: "browser \<Rightarrow> app \<Rightarrow> app" where
  "handleResize b s = handleResize_with HOTSPOTS b s"

text \<open>
  The component once mounted, before any effect has run: the initial values of the three
  \<^verbatim>\<open>useState\<close> calls, and a new canvas element (300 by 150).
\<close>

definition App_mounted :: app where
  "App_mounted =
    \<lparr>canvasRef = Some \<lparr>width = 300, height = 150, ctx = default_context\<rparr>,
     mapLoaded = False, deaths = [], canvasDimensions = \<lparr>width = 0, height = 0\<rparr>,
     console = []\<rparr>"

section \<open>The module and its table\<close>

text \<open>
  The state of the module as the program runs: the array that the constant
  \<^verbatim>\<open>HOTSPOTS\<close> is bound to (the binding is constant, the array is an object that a
  statement could write to), the source of draws of \<^verbatim>\<open>Math.random\<close>, and the state of
  the component. The operations of the program read the table from this state and return
  the state they leave.
\<close>

record program =
  hotspots :: "hotspot list"
  draws :: rng
  component :: app

text \<open>The module once evaluated and the component mounted, on a source of draws.\<close>

definition Module_init :: "rng \<Rightarrow> program" where
  "Module_init g = \<lparr>hotspots = HOTSPOTS, draws = g, component = App_mounted\<rparr>"

text \<open>
  A call of \<^verbatim>\<open>generateDeathData\<close>: it reads the table (its length and the entry chosen,
  lines 35 and 36) and takes draws; it returns the deaths.
\<close>

definition program_generateDeathData ::
  "int option \<Rightarrow> program \<Rightarrow> error + (death list \<times> program)" where
  "program_generateDeathData arg m =
    (case generateDeathData_with (hotspots m) arg (draws m) of
       Inl e \<Rightarrow> Inl e
     | Inr (ds, g') \<Rightarrow> Inr (ds, m\<lparr>draws := g'\<rparr>))"

text \<open>
  A call of \<^verbatim>\<open>drawMap\<close>, and the listener of \<^verbatim>\<open>resize\<close>: the handler of a load reads
  the table (\<^verbatim>\<open>HOTSPOTS.forEach\<close>, line 104) and changes the state of the component.
\<close>

definition program_drawMap :: "browser \<Rightarrow> program \<Rightarrow> program" where
  "program_drawMap b m = m\<lparr>component := drawMap_with (hotspots m) b (component m)\<rparr>"

definition program_handleResize :: "browser \<Rightarrow> program \<Rightarrow> program" where
  "program_handleResize b m =
     m\<lparr>component := handleResize_with (hotspots m) b (component m)\<rparr>"

text \<open>
  What can happen to the mounted component: the effect
  \<^verbatim>\<open>setDeaths(generateDeathData(5000))\<close> (lines 63 to 65), the effect that calls
  \<^verbatim>\<open>drawMap\<close> (lines 136 to 138), and a \<^verbatim>\<open>resize\<close> event of the window. A run stops at
  the first error, as the exception would.
\<close>

datatype event = Generate | Draw browser | Resize browser

fun step :: "event \<Rightarrow> program \<Rightarrow> error + program" where
  "step Generate m =
     (case program_generateDeathData (Some 5000) m of
        Inl e \<Rightarrow> Inl e
      | Inr (ds, m') \<Rightarrow> Inr (m'\<lparr>component := (component m')\<lparr>deaths := ds\<rparr>\<rparr>))"
| "step (Draw b) m = Inr (program_drawMap b m)"
| "step (Resize b) m = Inr (program_handleResize b m)"

fun run :: "event list \<Rightarrow> program \<Rightarrow> error + program" where
  "run [] m = Inr m"
| "run (e # es) m = (case step e m of Inl err \<Rightarrow> Inl err | Inr m' \<Rightarrow> run es m')"

section \<open>Auxiliary notions for the statements\<close>

text \<open>A death lies on the map: both coordinates are between 0 and 800.\<close>

definition in_map :: "death \<Rightarrow> bool" where
  "in_map d \<longleftrightarrow> 0 \<le> dx d \<and> dx d \<le> 800 \<and> 0 \<le> dy d \<and> dy d \<le> 800"

text \<open>
  The position, in the source of draws, of the first draw of round \<open>k\<close> of the loop: a
  round takes four draws when its first draw is below 0.8 and three otherwise, and the
  later rounds run on what it leaves.
\<close>

fun first_draw :: "rng \<Rightarrow> nat \<Rightarrow> nat" where
  "first_draw g 0 = 0"
| "first_draw g (Suc k) =
     (let c = (if g 0 < 0.8 then 4 else 3) in c + first_draw (\<lambda>n. g (c + n)) k)"

text \<open>Two hotspots that agree on every field but \<^verbatim>\<open>density\<close>.\<close>

definition same_but_density :: "hotspot \<Rightarrow> hotspot \<Rightarrow> bool" where
  "same_but_density a b \<longleftrightarrow>
     hx a = hx b \<and> hy a = hy b \<and> radius a = radius b \<and> name a = name b"

text \<open>What the specification asks of an entry of the hotspot table.\<close>

definition hotspot_ok :: "hotspot \<Rightarrow> bool" where
  "hotspot_ok h \<longleftrightarrow>
     0 \<le> hx h \<and> hx h \<le> 800 \<and> 0 \<le> hy h \<and> hy h \<le> 800 \<and> 0 < radius h
     \<and> 0 < density h \<and> density h \<le> 1 \<and> name h \<noteq> []"

text \<open>The painting that one round of each \<^verbatim>\<open>forEach\<close> of \<^verbatim>\<open>img.onload\<close> adds.\<close>

definition death_circle :: "real \<Rightarrow> real \<Rightarrow> death \<Rightarrow> paint" where
  "death_circle scaleX scaleY d =
     Fill [Arc (dx d * scaleX) (dy d * scaleY) 2 0 (pi * 2)] ''rgba(255, 0, 0, 0.5)''"

definition hotspot_circle :: "real \<Rightarrow> real \<Rightarrow> hotspot \<Rightarrow> paint" where
  "hotspot_circle scaleX scaleY h =
     Stroke [Arc (hx h * scaleX) (hy h * scaleY) (radius h * scaleX) 0 (pi * 2)]
       ''rgba(0, 255, 255, 0.3)'' 1"

text \<open>
  The canvas that \<^verbatim>\<open>img.onload\<close> leaves, written without the canvas and the state it
  starts from: the two assignments of a dimension replace all there is in a canvas.
\<close>

definition onload_canvas :: "browser \<Rightarrow> dimensions \<Rightarrow> death list \<Rightarrow> canvas" where
  "onload_canvas b img ds =
    (let newWidth = offsetWidth b;
         newHeight = offsetWidth b / (width img / height img);
         c2 = \<lparr>width = dimension b newWidth, height = dimension b newHeight,
               ctx = default_context\<rparr>;
         c3 = clearRect 0 0 (width c2) (height c2) c2;
         c4 = drawImage img 0 0 (width c3) (height c3) c3;
         scaleX = newWidth / 800;
         scaleY = newHeight / 800;
         c5 = fold (\<lambda>death c.
                fill (set_fillStyle ''rgba(255, 0, 0, 0.5)''
                  (arc (dx death * scaleX) (dy death * scaleY) 2 0 (pi * 2) (beginPath c))))
                ds c4
     in fold (\<lambda>hotspot c.
                stroke (set_lineWidth 1 (set_strokeStyle ''rgba(0, 255, 255, 0.3)''
                  (arc (hx hotspot * scaleX) (hy hotspot * scaleY) (radius hotspot * scaleX)
                     0 (pi * 2) (beginPath c)))))
                HOTSPOTS c5)"

text \<open>
  Browsers for the examples: the canvas keeps the whole part of a dimension; the image
  loads with a given size, or fails, with the container \<open>w\<close> pixels wide.
\<close>

definition whole_pixels :: "real \<Rightarrow> real" where
  "whole_pixels v = real_of_int \<lfloor>v\<rfloor>"

definition image_loads :: "dimensions \<Rightarrow> real \<Rightarrow> browser" where
  "image_loads img w = \<lparr>load = Load img, offsetWidth = w, dimension = whole_pixels\<rparr>"

definition image_fails :: "real \<Rightarrow> browser" where
  "image_fails w = \<lparr>load = Error, offsetWidth = w, dimension = whole_pixels\<rparr>"

section \<open>The generator returns the requested number of deaths, all on the map\<close>

declare generateDeathData_loop.simps [simp del]

lemma valid_rng_Math_random:
  "valid_rng g \<Longrightarrow> Math_random g = (u, g') \<Longrightarrow> 0 \<le> u \<and> u < 1 \<and> valid_rng g'"
  by (auto simp: valid_rng_def Math_random_def)

lemma valid_rng_skip: "valid_rng g \<Longrightarrow> valid_rng (\<lambda>n. g (m + n))"
  by (simp add: valid_rng_def)

text \<open>A draw of the unit interval, scaled by the length of a table, indexes the table.\<close>

lemma index_in_range:
  assumes "0 \<le> u" "u < 1" "xs \<noteq> []"
  shows "\<exists>k < length xs. \<lfloor>u * real (length xs)\<rfloor> = int k
           \<and> index xs \<lfloor>u * real (length xs)\<rfloor> = Some (xs ! k)"
proof -
  let ?n = "length xs"
  have n: "0 < real ?n" using assms(3) by simp
  have lo: "0 \<le> u * real ?n" using assms(1) by simp
  have hi: "u * real ?n < real ?n" using assms(2) n by simp
  have f0: "0 \<le> \<lfloor>u * real ?n\<rfloor>" using lo by simp
  have f1: "\<lfloor>u * real ?n\<rfloor> < int ?n" using hi by (simp add: floor_less_iff)
  have k: "nat \<lfloor>u * real ?n\<rfloor> < ?n" using f0 f1 by linarith
  have e: "\<lfloor>u * real ?n\<rfloor> = int (nat \<lfloor>u * real ?n\<rfloor>)" using f0 by linarith
  have "index xs \<lfloor>u * real ?n\<rfloor> = Some (xs ! nat \<lfloor>u * real ?n\<rfloor>)"
    unfolding index_def using f0 f1 by (simp only: if_True simp_thms)
  with k e show ?thesis by blast
qed

text \<open>
  Each hotspot is chosen on an interval of draws of the same length: index \<open>j\<close> of a table
  of five on the draws from \<open>j / 5\<close> (included) to \<open>(j + 1) / 5\<close> (excluded).
\<close>

lemma hotspotIndex_interval:
  "\<lfloor>u * 5\<rfloor> = int j \<longleftrightarrow> real j / 5 \<le> u \<and> u < (real j + 1) / 5"
  by (auto simp: floor_eq_iff)

text \<open>One round on a valid source: no error, a death on the map, a valid source left.\<close>

lemma generateDeath_total:
  assumes "valid_rng g" "hs \<noteq> []"
  shows "\<exists>d g'. generateDeath hs g = Inr (d, g') \<and> valid_rng g' \<and> in_map d"
proof -
  obtain p g1 where r0: "Math_random g = (p, g1)" by (cases "Math_random g")
  obtain u1 g2 where r1: "Math_random g1 = (u1, g2)" by (cases "Math_random g1")
  obtain u2 g3 where r2: "Math_random g2 = (u2, g3)" by (cases "Math_random g2")
  obtain u3 g4 where r3: "Math_random g3 = (u3, g4)" by (cases "Math_random g3")
  have v1: "valid_rng g1" using valid_rng_Math_random[OF assms(1) r0] by simp
  have v2: "0 \<le> u1 \<and> u1 < 1 \<and> valid_rng g2" using valid_rng_Math_random[OF v1 r1] .
  have v3: "valid_rng g3" using valid_rng_Math_random[OF _ r2] v2 by simp
  have v4: "valid_rng g4" using valid_rng_Math_random[OF v3 r3] by simp
  obtain k where k: "index hs \<lfloor>u1 * real (length hs)\<rfloor> = Some (hs ! k)"
    using index_in_range[of u1 hs] v2 assms(2) by blast
  show ?thesis
    using r0 r1 r2 r3 v3 v4 k
    by (simp add: generateDeath_def Let_def in_map_def mapWidth_def mapHeight_def)
qed

text \<open>
  The loop on a valid source, from round \<open>i\<close> with \<open>acc\<close> pushed so far: it returns, with
  one more death for each remaining round, all on the map when those of \<open>acc\<close> are.
\<close>

lemma loop_total:
  assumes "valid_rng g" "hs \<noteq> []" "list_all in_map acc"
  shows "\<exists>ds g'. generateDeathData_loop hs n i g acc = Inr (ds, g') \<and> valid_rng g'
           \<and> length ds = length acc + nat (n - i) \<and> list_all in_map ds"
  using assms
proof (induction hs n i g acc rule: generateDeathData_loop.induct)
  case (1 hs numDeaths i g acc)
  show ?case
  proof (cases "i < numDeaths")
    case False
    then show ?thesis using 1(2,4) by (simp add: generateDeathData_loop.simps)
  next
    case True
    obtain d g' where d: "generateDeath hs g = Inr (d, g')" "valid_rng g'" "in_map d"
      using generateDeath_total[OF 1(2,3)] by blast
    have "list_all in_map (acc @ [d])" using 1(4) d(3) by simp
    from 1(1)[OF True d(1) refl d(2) 1(3) this]
    obtain ds g'' where
      r: "generateDeathData_loop hs numDeaths (i + 1) g' (acc @ [d]) = Inr (ds, g'')"
        "valid_rng g''" "length ds = length (acc @ [d]) + nat (numDeaths - (i + 1))"
        "list_all in_map ds"
      by blast
    have "length ds = length acc + nat (numDeaths - i)" using r(3) True by simp
    then show ?thesis
      using True d(1) r by (subst generateDeathData_loop.simps) simp
  qed
qed

text \<open>
  C1. For every integer \<open>count\<close> that is not negative, and every source of draws of the
  unit interval, \<^verbatim>\<open>generateDeathData(count)\<close> returns (it throws nothing) a sequence of
  exactly \<open>count\<close> deaths, each with both coordinates between 0 and 800; for \<open>count = 0\<close>
  the sequence is empty.
\<close>

theorem generateDeathData_count_bounds:
  assumes "0 \<le> count" "valid_rng g"
  shows "\<exists>ds g'. generateDeathData (Some count) g = Inr (ds, g')
           \<and> int (length ds) = count \<and> list_all in_map ds
           \<and> (count = 0 \<longrightarrow> ds = [])"
proof -
  have "HOTSPOTS \<noteq> []" by (simp add: HOTSPOTS_def)
  from loop_total[OF assms(2) this, of "[]" count 0]
  obtain ds g' where r: "generateDeathData_loop HOTSPOTS count 0 g [] = Inr (ds, g')"
    "length ds = nat count" "list_all in_map ds" by auto
  then show ?thesis
    using assms(1) by (auto simp: generateDeathData_def generateDeathData_with_def)
qed

text \<open>
  The theorem at two inputs, with every draw equal to 0: no death for a count of 0, and
  two deaths on the map for a count of 2.
\<close>

theorem generateDeathData_count_bounds_witness:
  "(0::int) \<le> 0 \<and> (0::int) \<le> 2 \<and> valid_rng (\<lambda>n. 0)
   \<and> (\<exists>g'. generateDeathData (Some 0) (\<lambda>n. 0) = Inr ([], g'))
   \<and> (\<exists>ds g'. generateDeathData (Some 2) (\<lambda>n. 0) = Inr (ds, g')
         \<and> int (length ds) = 2 \<and> list_all in_map ds)"
proof -
  have v: "valid_rng (\<lambda>n. 0)" by (simp add: valid_rng_def)
  have z: "(0::int) \<le> 0" and t: "(0::int) \<le> 2" by simp_all
  show ?thesis
    using v generateDeathData_count_bounds[OF z v] generateDeathData_count_bounds[OF t v]
    by auto
qed

section \<open>How each death is computed from the draws\<close>

text \<open>The source that a round leaves: the one it started from, less the draws it took.\<close>

lemma generateDeath_rest:
  assumes "generateDeath hs g = Inr (d, g')"
  shows "g' = (\<lambda>n. g ((if g 0 < 0.8 then 4 else 3) + n))"
  using assms
  by (auto simp: generateDeath_def Math_random_def Let_def eval_nat_numeral
      split: if_splits option.splits)

text \<open>
  What the loop returns is what it started with, followed by one death for each remaining
  round; the death of round \<open>k\<close> is the one computed from the draws at \<open>first_draw g k\<close>.
\<close>

lemma loop_nth:
  assumes "generateDeathData_loop hs n i g acc = Inr (ds, g')"
  shows "\<exists>new. ds = acc @ new \<and> length new = nat (n - i) \<and>
           (\<forall>k<length new. \<exists>g''.
              generateDeath hs (\<lambda>j. g (first_draw g k + j)) = Inr (new ! k, g''))"
  using assms
proof (induction hs n i g acc arbitrary: ds g' rule: generateDeathData_loop.induct)
  case (1 hs numDeaths i g acc)
  show ?case
  proof (cases "i < numDeaths")
    case False
    then show ?thesis using 1(2) by (simp add: generateDeathData_loop.simps)
  next
    case True
    from 1(2) True obtain d g1 where d: "generateDeath hs g = Inr (d, g1)"
      and r: "generateDeathData_loop hs numDeaths (i + 1) g1 (acc @ [d]) = Inr (ds, g')"
      by (subst (asm) generateDeathData_loop.simps) (auto split: sum.splits)
    define c :: nat where "c = (if g 0 < 0.8 then 4 else 3)"
    have g1: "g1 = (\<lambda>n. g (c + n))" using generateDeath_rest[OF d] by (simp add: c_def)
    from 1(1)[OF True d refl r]
    obtain new where new: "ds = (acc @ [d]) @ new" "length new = nat (numDeaths - (i + 1))"
      "\<forall>k<length new. \<exists>g''.
         generateDeath hs (\<lambda>j. g1 (first_draw g1 k + j)) = Inr (new ! k, g'')"
      by blast
    have len: "length (d # new) = nat (numDeaths - i)" using new(2) True by simp
    have nth: "\<exists>g''. generateDeath hs (\<lambda>j. g (first_draw g k + j)) = Inr ((d # new) ! k, g'')"
      if "k < length (d # new)" for k
    proof (cases k)
      case 0
      then show ?thesis using d by simp
    next
      case (Suc k')
      then have "k' < length new" using that by simp
      then obtain g'' where
        "generateDeath hs (\<lambda>j. g1 (first_draw g1 k' + j)) = Inr (new ! k', g'')"
        using new(3) by blast
      moreover have "(\<lambda>j. g1 (first_draw g1 k' + j)) = (\<lambda>j. g (first_draw g k + j))"
        using Suc by (simp add: g1 c_def Let_def add.assoc)
      ultimately show ?thesis using Suc by auto
    qed
    show ?thesis
      using new(1) len nth by (intro exI[of _ "d # new"]) simp
  qed
qed

text \<open>One round over the table of the program, on a valid source.\<close>

lemma generateDeath_formula:
  assumes "valid_rng g" "generateDeath HOTSPOTS g = Inr (d, g')"
  shows "if g 0 < 0.8 then
           (\<exists>j<length HOTSPOTS. \<lfloor>g 1 * 5\<rfloor> = int j \<and>
              (let h = HOTSPOTS ! j; \<theta> = g 2 * 2 * pi; r = radius h * sqrt (g 3)
               in 0 \<le> \<theta> \<and> \<theta> < 2 * pi \<and> 0 \<le> r \<and> r < radius h \<and>
                  d = \<lparr>dx = max 0 (min 800 (hx h + r * cos \<theta>)),
                       dy = max 0 (min 800 (hy h + r * sin \<theta>))\<rparr>))
         else d = \<lparr>dx = max 0 (min 800 (g 1 * 800)), dy = max 0 (min 800 (g 2 * 800))\<rparr>"
proof -
  have v: "\<And>n. 0 \<le> g n \<and> g n < 1" using assms(1) by (simp add: valid_rng_def)
  show ?thesis
  proof (cases "g 0 < 0.8")
    case False
    then show ?thesis using assms(2)
      by (simp add: generateDeath_def Math_random_def Let_def mapWidth_def mapHeight_def
          eval_nat_numeral)
  next
    case True
    have n: "HOTSPOTS \<noteq> []" by (simp add: HOTSPOTS_def)
    obtain j where j: "j < length HOTSPOTS" "\<lfloor>g 1 * real (length HOTSPOTS)\<rfloor> = int j"
      "index HOTSPOTS \<lfloor>g 1 * real (length HOTSPOTS)\<rfloor> = Some (HOTSPOTS ! j)"
      using index_in_range[of "g 1" HOTSPOTS] v n by blast
    have l5: "real (length HOTSPOTS) = 5" by (simp add: HOTSPOTS_def)
    have rad: "0 < radius (HOTSPOTS ! j)"
      using j(1) by (auto simp: HOTSPOTS_def less_Suc_eq nth_Cons')
    have s0: "0 \<le> sqrt (g 3)" using v by simp
    have s1: "sqrt (g 3) < 1" using v by simp
    have r0: "0 \<le> radius (HOTSPOTS ! j) * sqrt (g 3)" using rad s0 by simp
    have r1: "radius (HOTSPOTS ! j) * sqrt (g 3) < radius (HOTSPOTS ! j)" using rad s1 by simp
    have t0: "0 \<le> g 2 * 2 * pi" using v by simp
    have t1: "g 2 * 2 * pi < 2 * pi" using v[of 2] by simp
    have d: "d = \<lparr>dx = max 0 (min 800 (hx (HOTSPOTS ! j)
                     + radius (HOTSPOTS ! j) * sqrt (g 3) * cos (g 2 * 2 * pi))),
                   dy = max 0 (min 800 (hy (HOTSPOTS ! j)
                     + radius (HOTSPOTS ! j) * sqrt (g 3) * sin (g 2 * 2 * pi)))\<rparr>"
      using assms(2) True j(3)
      by (simp add: generateDeath_def Math_random_def Let_def mapWidth_def mapHeight_def
          eval_nat_numeral)
    show ?thesis
      using True j(1) j(2) l5 r0 r1 t0 t1 d by (simp add: Let_def)
  qed
qed

text \<open>
  C2. Let \<open>ds\<close> be what \<^verbatim>\<open>generateDeathData(count)\<close> returns on a source \<open>g\<close> of draws of
  the unit interval, and \<open>m\<close> the position of the first draw of round \<open>k\<close>; that draw is
  \<open>p\<close>. If \<open>p < 0.8\<close>, the next draw scaled by 5 and rounded down is the index \<open>j\<close> of a
  hotspot of the table, the angle \<open>\<theta>\<close> is the third draw times \<open>2\<pi>\<close> and lies in
  \<open>[0, 2\<pi>)\<close>, the distance \<open>r\<close> is the radius of the hotspot times the square root of the
  fourth draw and lies below the radius, and the death is the centre of the hotspot plus
  \<open>(r cos \<theta>, r sin \<theta>)\<close>. Otherwise its coordinates are the second and third draws times
  800. In both cases each coordinate is then clamped into \<open>[0, 800]\<close>.
\<close>

theorem generateDeathData_sample_formula:
  assumes "valid_rng g" "generateDeathData (Some count) g = Inr (ds, g')" "k < length ds"
  shows "let m = first_draw g k; p = g m in
         if p < 0.8 then
           (\<exists>j<length HOTSPOTS. \<lfloor>g (m + 1) * 5\<rfloor> = int j \<and>
              (let h = HOTSPOTS ! j; \<theta> = g (m + 2) * 2 * pi; r = radius h * sqrt (g (m + 3))
               in 0 \<le> \<theta> \<and> \<theta> < 2 * pi \<and> 0 \<le> r \<and> r < radius h \<and>
                  ds ! k = \<lparr>dx = max 0 (min 800 (hx h + r * cos \<theta>)),
                            dy = max 0 (min 800 (hy h + r * sin \<theta>))\<rparr>))
         else ds ! k = \<lparr>dx = max 0 (min 800 (g (m + 1) * 800)),
                        dy = max 0 (min 800 (g (m + 2) * 800))\<rparr>"
proof -
  have "generateDeathData_loop HOTSPOTS count 0 g [] = Inr (ds, g')"
    using assms(2) by (simp add: generateDeathData_def generateDeathData_with_def)
  from loop_nth[OF this] assms(3)
  obtain g'' where
    d: "generateDeath HOTSPOTS (\<lambda>j. g (first_draw g k + j)) = Inr (ds ! k, g'')"
    by auto
  have "valid_rng (\<lambda>j. g (first_draw g k + j))" using assms(1) by (rule valid_rng_skip)
  from generateDeath_formula[OF this d] show ?thesis
    by (simp only: Let_def add_0_right)
qed

text \<open>
  The theorem at two sources, for a count of 1. With the first draw 0.9 and the others
  0.25, the death is the point (200, 200) of the whole map. With every draw 0, it is the
  centre (150, 700) of the first hotspot.
\<close>

theorem generateDeathData_sample_formula_witness:
  "valid_rng (\<lambda>n. if n = 0 then 9 / 10 else 1 / 4)
   \<and> generateDeathData (Some 1) (\<lambda>n. if n = 0 then 9 / 10 else 1 / 4)
       = Inr ([\<lparr>dx = 200, dy = 200\<rparr>], \<lambda>n. 1 / 4)
   \<and> [\<lparr>dx = 200, dy = 200\<rparr>] ! 0
       = \<lparr>dx = max 0 (min 800 (1 / 4 * 800)), dy = max 0 (min 800 (1 / 4 * 800))\<rparr>
   \<and> valid_rng (\<lambda>n. 0)
   \<and> generateDeathData (Some 1) (\<lambda>n. 0) = Inr ([\<lparr>dx = 150, dy = 700\<rparr>], \<lambda>n. 0)
   \<and> (\<exists>j<length HOTSPOTS. \<lfloor>0 * 5 :: real\<rfloor> = int j \<and>
         [\<lparr>dx = 150, dy = 700\<rparr>] ! 0
           = \<lparr>dx = max 0 (min 800 (hx (HOTSPOTS ! j) + radius (HOTSPOTS ! j) * sqrt 0 * cos (0 * 2 * pi))),
              dy = max 0 (min 800 (hy (HOTSPOTS ! j) + radius (HOTSPOTS ! j) * sqrt 0 * sin (0 * 2 * pi)))\<rparr>)"
proof -
  let ?g = "\<lambda>n::nat. if n = 0 then 9 / 10 else (1 / 4 :: real)"
  have h1: "valid_rng ?g" by (simp add: valid_rng_def)
  have h2: "generateDeathData (Some 1) ?g = Inr ([\<lparr>dx = 200, dy = 200\<rparr>], \<lambda>n. 1 / 4)"
    by (simp add: generateDeathData_def generateDeathData_with_def generateDeathData_loop.simps
        generateDeath_def Math_random_def mapWidth_def mapHeight_def)
  have h3: "(0::nat) < length [\<lparr>dx = 200, dy = 200 :: real\<rparr>]" by simp
  have a: "[\<lparr>dx = 200, dy = 200\<rparr>] ! 0
       = \<lparr>dx = max 0 (min 800 (1 / 4 * 800)), dy = max 0 (min 800 (1 / 4 * 800 :: real))\<rparr>"
    using generateDeathData_sample_formula[OF h1 h2 h3] by simp
  have k1: "valid_rng (\<lambda>n. 0)" by (simp add: valid_rng_def)
  have k2: "generateDeathData (Some 1) (\<lambda>n. 0) = Inr ([\<lparr>dx = 150, dy = 700\<rparr>], \<lambda>n. 0)"
    by (simp add: generateDeathData_def generateDeathData_with_def generateDeathData_loop.simps
        generateDeath_def Math_random_def mapWidth_def mapHeight_def index_def HOTSPOTS_def)
  have k3: "(0::nat) < length [\<lparr>dx = 150, dy = 700 :: real\<rparr>]" by simp
  have b: "\<exists>j<length HOTSPOTS. \<lfloor>0 * 5 :: real\<rfloor> = int j \<and>
         [\<lparr>dx = 150, dy = 700\<rparr>] ! 0
           = \<lparr>dx = max 0 (min 800 (hx (HOTSPOTS ! j) + radius (HOTSPOTS ! j) * sqrt 0 * cos (0 * 2 * pi))),
              dy = max 0 (min 800 (hy (HOTSPOTS ! j) + radius (HOTSPOTS ! j) * sqrt 0 * sin (0 * 2 * pi)))\<rparr>"
    using generateDeathData_sample_formula[OF k1 k2 k3] by (simp add: Let_def)
  show ?thesis using h1 h2 a k1 k2 b by blast
qed

section \<open>The generator does not read the density of a hotspot\<close>

lemma generateDeath_density:
  assumes "list_all2 same_but_density hs1 hs2"
  shows "generateDeath hs1 g = generateDeath hs2 g"
proof -
  have len: "length hs1 = length hs2" using assms by (rule list_all2_lengthD)
  have ix: "rel_option same_but_density (index hs1 i) (index hs2 i)" for i
    using assms len by (auto simp: index_def list_all2_nthD)
  show ?thesis
  proof (cases "index hs1 \<lfloor>g 1 * real (length hs1)\<rfloor>")
    case None
    then have "index hs2 \<lfloor>g 1 * real (length hs2)\<rfloor> = None"
      using ix[of "\<lfloor>g 1 * real (length hs1)\<rfloor>"] len by simp
    with None show ?thesis
      by (simp add: generateDeath_def Math_random_def Let_def)
  next
    case (Some a)
    then obtain b where
      b: "index hs2 \<lfloor>g 1 * real (length hs2)\<rfloor> = Some b" "same_but_density a b"
      using ix[of "\<lfloor>g 1 * real (length hs1)\<rfloor>"] len by (auto simp: option_rel_Some1)
    with Some show ?thesis
      by (simp add: generateDeath_def Math_random_def Let_def same_but_density_def)
  qed
qed

lemma loop_density:
  assumes "list_all2 same_but_density hs1 hs2"
  shows "generateDeathData_loop hs1 n i g acc = generateDeathData_loop hs2 n i g acc"
  using assms
proof (induction hs1 n i g acc rule: generateDeathData_loop.induct)
  case (1 hs numDeaths i g acc)
  have e: "generateDeath hs g = generateDeath hs2 g" using 1(2) by (rule generateDeath_density)
  show ?case
  proof (cases "i < numDeaths")
    case False
    then show ?thesis by (simp add: generateDeathData_loop.simps)
  next
    case True
    show ?thesis
    proof (cases "generateDeath hs g")
      case (Inl err)
      then show ?thesis using True e
        by (simp add: generateDeathData_loop.simps[of hs] generateDeathData_loop.simps[of hs2])
    next
      case (Inr a)
      obtain d g1 where a: "a = (d, g1)" by (cases a)
      have r1: "generateDeath hs g = Inr (d, g1)" using Inr a by simp
      have r2: "generateDeath hs2 g = Inr (d, g1)" using r1 e by simp
      from 1(1)[OF True r1 refl 1(2)] show ?thesis
        using True
        by (simp add: r1 r2 generateDeathData_loop.simps[of hs _ i]
            generateDeathData_loop.simps[of hs2 _ i])
    qed
  qed
qed

text \<open>
  C6. For any two hotspot tables that agree, entry by entry, on every field except
  \<^verbatim>\<open>density\<close>, the generator gives the same result (the same deaths in the same order,
  or the same error) on the same argument and the same source of draws.
\<close>

theorem generateDeathData_ignores_density:
  assumes "list_all2 same_but_density hs1 hs2"
  shows "generateDeathData_with hs1 arg g = generateDeathData_with hs2 arg g"
  using loop_density[OF assms] by (simp add: generateDeathData_with_def)

text \<open>The theorem at the table of the program and the same table with every density 1.\<close>

theorem generateDeathData_ignores_density_witness:
  "list_all2 same_but_density HOTSPOTS (map (\<lambda>h. h\<lparr>density := 1\<rparr>) HOTSPOTS)
   \<and> generateDeathData_with HOTSPOTS (Some 2) (\<lambda>n. 0)
     = generateDeathData_with (map (\<lambda>h. h\<lparr>density := 1\<rparr>) HOTSPOTS) (Some 2) (\<lambda>n. 0)"
proof -
  have h: "list_all2 same_but_density HOTSPOTS (map (\<lambda>h. h\<lparr>density := 1\<rparr>) HOTSPOTS)"
    by (simp add: HOTSPOTS_def same_but_density_def)
  show ?thesis using h generateDeathData_ignores_density[OF h] by simp
qed

section \<open>What a successful load paints\<close>

text \<open>The handlers of the program, with the table \<^verbatim>\<open>HOTSPOTS\<close> in its place.\<close>

lemma img_onload_eq:
  "img_onload b img cv ds s =
    (let s1 = s\<lparr>mapLoaded := True\<rparr>;
         aspectRatio = width img / height img;
         containerWidth = offsetWidth b;
         newWidth = containerWidth;
         newHeight = containerWidth / aspectRatio;
         c1 = set_width (dimension b) newWidth cv;
         c2 = set_height (dimension b) newHeight c1;
         s2 = s1\<lparr>canvasDimensions := \<lparr>width = newWidth, height = newHeight\<rparr>\<rparr>;
         c3 = clearRect 0 0 (width c2) (height c2) c2;
         c4 = drawImage img 0 0 (width c3) (height c3) c3;
         scaleX = newWidth / 800;
         scaleY = newHeight / 800;
         c5 = fold (\<lambda>death c.
                fill (set_fillStyle ''rgba(255, 0, 0, 0.5)''
                  (arc (dx death * scaleX) (dy death * scaleY) 2 0 (pi * 2) (beginPath c))))
                ds c4;
         c6 = fold (\<lambda>hotspot c.
                stroke (set_lineWidth 1 (set_strokeStyle ''rgba(0, 255, 255, 0.3)''
                  (arc (hx hotspot * scaleX) (hy hotspot * scaleY) (radius hotspot * scaleX)
                     0 (pi * 2) (beginPath c)))))
                HOTSPOTS c5
     in s2\<lparr>canvasRef := Some c6\<rparr>)"
  unfolding img_onload_def img_onload_with_def by (rule refl)

lemma drawMap_eq:
  "drawMap b s =
    (case canvasRef s of
       None \<Rightarrow> s
     | Some cv \<Rightarrow>
         (case load b of
            Load img \<Rightarrow> img_onload b img cv (deaths s) s
          | Error \<Rightarrow> img_onerror cv s))"
  unfolding drawMap_def drawMap_with_def img_onload_def by (rule refl)

lemma handleResize_eq: "handleResize b s = (if mapLoaded s then drawMap b s else s)"
  unfolding handleResize_def handleResize_with_def drawMap_def by (rule refl)

lemma fold_deaths_painted:
  "painted (ctx (fold (\<lambda>death c.
      fill (set_fillStyle ''rgba(255, 0, 0, 0.5)''
        (arc (dx death * sx) (dy death * sy) 2 0 (pi * 2) (beginPath c)))) ds c))
   = painted (ctx c) @ map (death_circle sx sy) ds"
  by (induction ds arbitrary: c)
     (simp_all add: fill_def set_fillStyle_def arc_def beginPath_def death_circle_def)

lemma fold_hotspots_painted:
  "painted (ctx (fold (\<lambda>hotspot c.
      stroke (set_lineWidth 1 (set_strokeStyle ''rgba(0, 255, 255, 0.3)''
        (arc (hx hotspot * sx) (hy hotspot * sy) (radius hotspot * sx) 0 (pi * 2)
           (beginPath c)))))
      hs c))
   = painted (ctx c) @ map (hotspot_circle sx sy) hs"
  by (induction hs arbitrary: c)
     (simp_all add: stroke_def set_lineWidth_def set_strokeStyle_def arc_def beginPath_def
        hotspot_circle_def)

lemma resize_fresh:
  "set_height conv h (set_width conv w c) =
     \<lparr>width = conv w, height = conv h, ctx = default_context\<rparr>"
  by (cases c) (simp add: set_width_def set_height_def)

lemma img_onload_canvas:
  "canvasRef (img_onload b img cv ds s) = Some (onload_canvas b img ds)"
  unfolding img_onload_eq onload_canvas_def Let_def resize_fresh by simp

text \<open>The paintings after a load, in order: the image, the deaths, the hotspots.\<close>

lemma onload_canvas_painted:
  "painted (ctx (onload_canvas b img ds)) =
     Image img 0 0 (dimension b (offsetWidth b))
       (dimension b (offsetWidth b / (width img / height img)))
     # map (death_circle (offsetWidth b / 800)
              (offsetWidth b / (width img / height img) / 800)) ds
     @ map (hotspot_circle (offsetWidth b / 800)
              (offsetWidth b / (width img / height img) / 800)) HOTSPOTS"
  unfolding onload_canvas_def Let_def fold_hotspots_painted fold_deaths_painted
  by (simp add: drawImage_def clearRect_def default_context_def)

lemma drawMap_loaded_painted:
  assumes "canvasRef s = Some cv" "load b = Load img"
  shows "\<exists>c'. canvasRef (drawMap b s) = Some c' \<and>
          painted (ctx c') =
            Image img 0 0 (dimension b (offsetWidth b))
               (dimension b (offsetWidth b / (width img / height img)))
            # map (death_circle (offsetWidth b / 800)
                     (offsetWidth b / (width img / height img) / 800)) (deaths s)
            @ map (hotspot_circle (offsetWidth b / 800)
                     (offsetWidth b / (width img / height img) / 800)) HOTSPOTS"
proof -
  have "canvasRef (drawMap b s) = canvasRef (img_onload b img cv (deaths s) s)"
    using assms by (simp add: drawMap_eq)
  also have "\<dots> = Some (onload_canvas b img (deaths s))"
    by (rule img_onload_canvas)
  finally show ?thesis
    by (simp only: onload_canvas_painted simp_thms ex_simps option.inject)
qed

lemma drawMap_loaded_state:
  assumes "canvasRef s = Some cv" "load b = Load img"
  shows "mapLoaded (drawMap b s) \<and> deaths (drawMap b s) = deaths s
    \<and> console (drawMap b s) = console s
    \<and> canvasDimensions (drawMap b s) =
        \<lparr>width = offsetWidth b, height = offsetWidth b / (width img / height img)\<rparr>"
  using assms by (simp add: drawMap_eq img_onload_eq Let_def)

lemma drawMap_deaths: "deaths (drawMap b s) = deaths s"
  by (simp add: drawMap_eq img_onload_eq img_onerror_def Let_def
      split: option.splits load_event.splits)

text \<open>
  C4. When the image loads (with a positive width and height), the target surface is as
  wide as the container and has the height that keeps the proportions of the image; these
  are the dimensions kept in \<^verbatim>\<open>canvasDimensions\<close>. For every death \<open>(x, y)\<close> of the
  collection, the painting that follows the image at the position of the death is a
  filled circle of radius 2 with its centre at
  \<open>(x * targetWidth / 800, y * targetHeight / 800)\<close>.
\<close>

theorem drawMap_death_circle:
  assumes "canvasRef s = Some cv" "load b = Load img" "0 < width img" "0 < height img"
    "i < length (deaths s)"
  shows "\<exists>c'. canvasRef (drawMap b s) = Some c' \<and>
     (let targetWidth = offsetWidth b;
          targetHeight = offsetWidth b / (width img / height img);
          d = deaths s ! i
      in canvasDimensions (drawMap b s) = \<lparr>width = targetWidth, height = targetHeight\<rparr> \<and>
         painted (ctx c') ! (1 + i) =
           Fill [Arc (dx d * targetWidth / 800) (dy d * targetHeight / 800) 2 0 (2 * pi)]
             ''rgba(255, 0, 0, 0.5)'')"
proof -
  from drawMap_loaded_painted[OF assms(1,2)] obtain c' where
    c: "canvasRef (drawMap b s) = Some c'" and
    p: "painted (ctx c') =
            Image img 0 0 (dimension b (offsetWidth b))
               (dimension b (offsetWidth b / (width img / height img)))
            # map (death_circle (offsetWidth b / 800)
                     (offsetWidth b / (width img / height img) / 800)) (deaths s)
            @ map (hotspot_circle (offsetWidth b / 800)
                     (offsetWidth b / (width img / height img) / 800)) HOTSPOTS"
    by blast
  have "painted (ctx c') ! (1 + i) =
     death_circle (offsetWidth b / 800) (offsetWidth b / (width img / height img) / 800)
       (deaths s ! i)"
    using assms(5) by (simp add: p nth_append)
  then show ?thesis
    using c drawMap_loaded_state[OF assms(1,2)] by (simp add: death_circle_def Let_def)
qed

text \<open>
  The theorem for an image of 800 by 800 in a container 400 wide, so that the target is
  400 by 400: the death at (800, 800) is painted at (400, 400) and the death at (0, 0) at
  (0, 0).
\<close>

theorem drawMap_death_circle_witness:
  "canvasRef (App_mounted\<lparr>deaths := [\<lparr>dx = 800, dy = 800\<rparr>, \<lparr>dx = 0, dy = 0\<rparr>]\<rparr>)
     = Some \<lparr>width = 300, height = 150, ctx = default_context\<rparr>
   \<and> load (image_loads \<lparr>width = 800, height = 800\<rparr> 400) = Load \<lparr>width = 800, height = 800\<rparr>
   \<and> canvasDimensions (drawMap (image_loads \<lparr>width = 800, height = 800\<rparr> 400)
        (App_mounted\<lparr>deaths := [\<lparr>dx = 800, dy = 800\<rparr>, \<lparr>dx = 0, dy = 0\<rparr>]\<rparr>))
       = \<lparr>width = 400, height = 400\<rparr>
   \<and> map_option (\<lambda>c. take 2 (tl (painted (ctx c))))
        (canvasRef (drawMap (image_loads \<lparr>width = 800, height = 800\<rparr> 400)
           (App_mounted\<lparr>deaths := [\<lparr>dx = 800, dy = 800\<rparr>, \<lparr>dx = 0, dy = 0\<rparr>]\<rparr>)))
       = Some [Fill [Arc 400 400 2 0 (2 * pi)] ''rgba(255, 0, 0, 0.5)'',
               Fill [Arc 0 0 2 0 (2 * pi)] ''rgba(255, 0, 0, 0.5)'']"
proof -
  let ?s = "App_mounted\<lparr>deaths := [\<lparr>dx = 800, dy = 800\<rparr>, \<lparr>dx = 0, dy = 0\<rparr>]\<rparr>"
  let ?img = "\<lparr>width = 800, height = 800 :: real\<rparr>"
  let ?b = "image_loads ?img 400"
  have h1: "canvasRef ?s = Some \<lparr>width = 300, height = 150, ctx = default_context\<rparr>"
    by (simp add: App_mounted_def)
  have h2: "load ?b = Load ?img" by (simp add: image_loads_def)
  have h3: "0 < width ?img" and h4: "0 < height ?img" by simp_all
  have i0: "0 < length (deaths ?s)" and i1: "1 < length (deaths ?s)" by simp_all
  have len: "map_option (\<lambda>c. length (painted (ctx c))) (canvasRef (drawMap ?b ?s)) = Some 8"
    using drawMap_loaded_painted[OF h1 h2] by (auto simp: HOTSPOTS_def)
  have off: "offsetWidth ?b = 400" by (simp add: image_loads_def)
  from drawMap_death_circle[OF h1 h2 h3 h4 i0] drawMap_death_circle[OF h1 h2 h3 h4 i1] len
  have "canvasDimensions (drawMap ?b ?s) = \<lparr>width = 400, height = 400\<rparr>
    \<and> map_option (\<lambda>c. take 2 (tl (painted (ctx c)))) (canvasRef (drawMap ?b ?s))
       = Some [Fill [Arc 400 400 2 0 (2 * pi)] ''rgba(255, 0, 0, 0.5)'',
               Fill [Arc 0 0 2 0 (2 * pi)] ''rgba(255, 0, 0, 0.5)'']"
    by (auto simp: off Let_def take_Suc_conv_app_nth eval_nat_numeral nth_tl)
  with h1 h2 show ?thesis by blast
qed

text \<open>
  C5. When the image loads (with a positive width and height), for every hotspot of the
  table the painting at its position after the image and the deaths is the outline of
  a circle with its centre at \<open>(hotspot.x * scaleX, hotspot.y * scaleY)\<close> and with the
  radius \<open>hotspot.radius * scaleX\<close>, where \<open>scaleX = targetWidth / 800\<close> and
  \<open>scaleY = targetHeight / 800\<close>: the vertical scale is not applied to the radius.
\<close>

theorem drawMap_hotspot_circle:
  assumes "canvasRef s = Some cv" "load b = Load img" "0 < width img" "0 < height img"
    "j < length HOTSPOTS"
  shows "\<exists>c'. canvasRef (drawMap b s) = Some c' \<and>
     (let scaleX = offsetWidth b / 800;
          scaleY = offsetWidth b / (width img / height img) / 800;
          h = HOTSPOTS ! j
      in painted (ctx c') ! (1 + length (deaths s) + j) =
           Stroke [Arc (hx h * scaleX) (hy h * scaleY) (radius h * scaleX) 0 (2 * pi)]
             ''rgba(0, 255, 255, 0.3)'' 1)"
proof -
  from drawMap_loaded_painted[OF assms(1,2)] obtain c' where
    c: "canvasRef (drawMap b s) = Some c'" and
    p: "painted (ctx c') =
            Image img 0 0 (dimension b (offsetWidth b))
               (dimension b (offsetWidth b / (width img / height img)))
            # map (death_circle (offsetWidth b / 800)
                     (offsetWidth b / (width img / height img) / 800)) (deaths s)
            @ map (hotspot_circle (offsetWidth b / 800)
                     (offsetWidth b / (width img / height img) / 800)) HOTSPOTS"
    by blast
  have "painted (ctx c') ! (1 + length (deaths s) + j) =
     hotspot_circle (offsetWidth b / 800) (offsetWidth b / (width img / height img) / 800)
       (HOTSPOTS ! j)"
    using assms(5) by (simp add: p nth_append)
  then show ?thesis
    using c by (simp add: hotspot_circle_def Let_def)
qed

text \<open>
  The theorem for an image of 800 by 400 in a container 400 wide, so that the two scales
  differ (0.5 and 0.25): the first hotspot, of centre (150, 700) and radius 80, is
  outlined at (75, 175) with the radius 40.
\<close>

theorem drawMap_hotspot_circle_witness:
  "canvasRef App_mounted = Some \<lparr>width = 300, height = 150, ctx = default_context\<rparr>
   \<and> load (image_loads \<lparr>width = 800, height = 400\<rparr> 400) = Load \<lparr>width = 800, height = 400\<rparr>
   \<and> (0::nat) < length HOTSPOTS
   \<and> map_option (\<lambda>c. painted (ctx c) ! 1)
        (canvasRef (drawMap (image_loads \<lparr>width = 800, height = 400\<rparr> 400) App_mounted))
       = Some (Stroke [Arc 75 175 40 0 (2 * pi)] ''rgba(0, 255, 255, 0.3)'' 1)"
proof -
  let ?img = "\<lparr>width = 800, height = 400 :: real\<rparr>"
  let ?b = "image_loads ?img 400"
  have h1: "canvasRef App_mounted = Some \<lparr>width = 300, height = 150, ctx = default_context\<rparr>"
    by (simp add: App_mounted_def)
  have h2: "load ?b = Load ?img" by (simp add: image_loads_def)
  have h3: "0 < width ?img" and h4: "0 < height ?img" by simp_all
  have h5: "0 < length HOTSPOTS" by (simp add: HOTSPOTS_def)
  have off: "offsetWidth ?b = 400" by (simp add: image_loads_def)
  have ds: "deaths App_mounted = []" by (simp add: App_mounted_def)
  have h0: "HOTSPOTS ! 0 = \<lparr>hx = 150, hy = 700, radius = 80, density = 0.4,
     name = ''Edgeville Wilderness (Lvl 1-5)''\<rparr>" by (simp add: HOTSPOTS_def)
  from drawMap_hotspot_circle[OF h1 h2 h3 h4 h5]
  have "map_option (\<lambda>c. painted (ctx c) ! 1) (canvasRef (drawMap ?b App_mounted))
       = Some (Stroke [Arc 75 175 40 0 (2 * pi)] ''rgba(0, 255, 255, 0.3)'' 1)"
    by (auto simp: off ds h0 Let_def)
  with h1 h2 h5 show ?thesis by blast
qed

section \<open>Drawing twice\<close>

text \<open>What a failed load does to the state, when there is a canvas.\<close>

lemma drawMap_error:
  assumes "canvasRef s = Some cv" "load b = Error"
  shows "drawMap b s =
     s\<lparr>canvasRef := Some (cv\<lparr>ctx := (ctx cv)\<lparr>fillStyle := ''white'', font := ''20px Arial'',
           painted := [Text ''Failed to load map image. Please check URL.'' 10 50
                         ''white'' ''20px Arial'']\<rparr>\<rparr>),
       console := console s @ [''Failed to load Wilderness map image.'']\<rparr>"
  using assms
  by (simp add: drawMap_eq img_onerror_def Let_def clearRect_def set_fillStyle_def set_font_def
      fillText_def)

text \<open>
  C7. Drawing is idempotent on the surface: after \<^verbatim>\<open>drawMap\<close> has run, running it once
  more with the same image outcome, the same container width, the same deaths and the
  same hotspot table leaves the same canvas, that is the same dimensions, the same list
  of paintings and the same drawing state.
\<close>

theorem drawMap_idempotent: "canvasRef (drawMap b (drawMap b s)) = canvasRef (drawMap b s)"
proof (cases "canvasRef s")
  case None
  then show ?thesis by (simp add: drawMap_eq)
next
  case (Some cv)
  show ?thesis
  proof (cases "load b")
    case Error
    show ?thesis
      by (subst (1 2) drawMap_error[OF Some Error]) (simp add: drawMap_error[OF _ Error])
  next
    case (Load img)
    obtain c1 where c1: "canvasRef (drawMap b s) = Some c1"
      using Some Load by (simp add: drawMap_eq img_onload_eq Let_def)
    have d: "deaths (drawMap b s) = deaths s" by (rule drawMap_deaths)
    have "canvasRef (drawMap b (drawMap b s))
            = canvasRef (img_onload b img c1 (deaths s) (drawMap b s))"
      using c1 Load d by (simp add: drawMap_eq[of b "drawMap b s"])
    moreover have "canvasRef (drawMap b s) = canvasRef (img_onload b img cv (deaths s) s)"
      using Some Load by (simp add: drawMap_eq)
    ultimately show ?thesis by (simp only: img_onload_canvas)
  qed
qed

section \<open>The failure of the image\<close>

text \<open>
  C3, as the claim states it, fails. A load that succeeds sets \<^verbatim>\<open>mapLoaded\<close>; when a
  later load fails (here on a redraw with the same container), \<^verbatim>\<open>mapLoaded\<close> is still
  true: \<^verbatim>\<open>img.onerror\<close> does not assign it.
\<close>

theorem drawMap_error_mapLoaded_counterexample:
  "mapLoaded (drawMap (image_loads \<lparr>width = 800, height = 800\<rparr> 400) App_mounted)
   \<and> mapLoaded (drawMap (image_fails 400)
        (drawMap (image_loads \<lparr>width = 800, height = 800\<rparr> 400) App_mounted))"
  by (simp add: drawMap_eq img_onload_eq img_onerror_def image_loads_def image_fails_def
      App_mounted_def Let_def)

text \<open>
  C3, amended. If the image fails to load, \<^verbatim>\<open>drawMap\<close> returns (it throws nothing) with
  the canvas at the dimensions it had, cleared, and with the fallback message, which is
  not empty, as its only painting, in white 20px Arial at (10, 50); \<^verbatim>\<open>mapLoaded\<close> is
  left as it was.
\<close>

theorem drawMap_error_fallback:
  assumes "canvasRef s = Some cv" "load b = Error"
  shows "\<exists>c'. canvasRef (drawMap b s) = Some c' \<and> width c' = width cv \<and> height c' = height cv
           \<and> painted (ctx c') = [Text ''Failed to load map image. Please check URL.'' 10 50
                                    ''white'' ''20px Arial'']
           \<and> ''Failed to load map image. Please check URL.'' \<noteq> []
           \<and> mapLoaded (drawMap b s) = mapLoaded s"
  by (simp add: drawMap_error[OF assms])

text \<open>The theorem for the component just mounted: the canvas stays 300 by 150.\<close>

theorem drawMap_error_fallback_witness:
  "canvasRef App_mounted = Some \<lparr>width = 300, height = 150, ctx = default_context\<rparr>
   \<and> load (image_fails 400) = Error
   \<and> map_option (\<lambda>c. (width c, height c, painted (ctx c)))
        (canvasRef (drawMap (image_fails 400) App_mounted))
       = Some (300, 150, [Text ''Failed to load map image. Please check URL.'' 10 50
                            ''white'' ''20px Arial''])
   \<and> mapLoaded (drawMap (image_fails 400) App_mounted) = mapLoaded App_mounted"
proof -
  have h1: "canvasRef App_mounted = Some \<lparr>width = 300, height = 150, ctx = default_context\<rparr>"
    by (simp add: App_mounted_def)
  have h2: "load (image_fails 400) = Error" by (simp add: image_fails_def)
  show ?thesis using h1 h2 drawMap_error_fallback[OF h1 h2] by auto
qed

text \<open>
  C8, as the claim states it, fails: more than the pixels of the surface changes. On the
  component just mounted, a failed load changes the fill style of the context from its
  default to white, and adds a line to the console.
\<close>

theorem drawMap_error_frame_counterexample:
  "map_option (\<lambda>c. fillStyle (ctx c)) (canvasRef App_mounted) = Some ''#000000''
   \<and> map_option (\<lambda>c. fillStyle (ctx c)) (canvasRef (drawMap (image_fails 400) App_mounted))
       = Some ''white''
   \<and> console App_mounted = []
   \<and> console (drawMap (image_fails 400) App_mounted)
       = [''Failed to load Wilderness map image.'']"
  by (simp add: drawMap_eq img_onerror_def image_fails_def App_mounted_def Let_def
      clearRect_def set_fillStyle_def set_font_def fillText_def default_context_def)

text \<open>
  C8, amended. If the image fails to load, the state after \<^verbatim>\<open>drawMap\<close> is the state
  before it except for the paintings of the surface (now the fallback message alone),
  the fill style and the font of its context (now white and 20px Arial), and one more
  line on the console. In particular the width and the height of the canvas,
  \<^verbatim>\<open>canvasDimensions\<close>, the deaths and \<^verbatim>\<open>mapLoaded\<close> are as before.
\<close>

theorem drawMap_error_frame:
  assumes "canvasRef s = Some cv" "load b = Error"
  shows "drawMap b s =
     s\<lparr>canvasRef := Some (cv\<lparr>ctx := (ctx cv)\<lparr>fillStyle := ''white'', font := ''20px Arial'',
           painted := [Text ''Failed to load map image. Please check URL.'' 10 50
                         ''white'' ''20px Arial'']\<rparr>\<rparr>),
       console := console s @ [''Failed to load Wilderness map image.'']\<rparr>
     \<and> (\<exists>c'. canvasRef (drawMap b s) = Some c' \<and> width c' = width cv \<and> height c' = height cv)
     \<and> canvasDimensions (drawMap b s) = canvasDimensions s
     \<and> deaths (drawMap b s) = deaths s
     \<and> mapLoaded (drawMap b s) = mapLoaded s"
  by (simp add: drawMap_error[OF assms])

text \<open>
  The theorem for a component that has loaded the image once, with two deaths: after a
  failed load the canvas is still 400 by 400, and so is \<^verbatim>\<open>canvasDimensions\<close>; the deaths
  are the same two.
\<close>

theorem drawMap_error_frame_witness:
  "load (image_fails 400) = Error
   \<and> map_option (\<lambda>c. (width c, height c))
       (canvasRef (drawMap (image_loads \<lparr>width = 800, height = 800\<rparr> 400)
          (App_mounted\<lparr>deaths := [\<lparr>dx = 800, dy = 800\<rparr>, \<lparr>dx = 0, dy = 0\<rparr>]\<rparr>)))
       = Some (400, 400)
   \<and> map_option (\<lambda>c. (width c, height c))
       (canvasRef (drawMap (image_fails 400)
          (drawMap (image_loads \<lparr>width = 800, height = 800\<rparr> 400)
             (App_mounted\<lparr>deaths := [\<lparr>dx = 800, dy = 800\<rparr>, \<lparr>dx = 0, dy = 0\<rparr>]\<rparr>))))
       = Some (400, 400)
   \<and> canvasDimensions (drawMap (image_fails 400)
          (drawMap (image_loads \<lparr>width = 800, height = 800\<rparr> 400)
             (App_mounted\<lparr>deaths := [\<lparr>dx = 800, dy = 800\<rparr>, \<lparr>dx = 0, dy = 0\<rparr>]\<rparr>)))
       = \<lparr>width = 400, height = 400\<rparr>
   \<and> deaths (drawMap (image_fails 400)
          (drawMap (image_loads \<lparr>width = 800, height = 800\<rparr> 400)
             (App_mounted\<lparr>deaths := [\<lparr>dx = 800, dy = 800\<rparr>, \<lparr>dx = 0, dy = 0\<rparr>]\<rparr>)))
       = [\<lparr>dx = 800, dy = 800\<rparr>, \<lparr>dx = 0, dy = 0\<rparr>]"
proof -
  let ?init = "App_mounted\<lparr>deaths := [\<lparr>dx = 800, dy = 800\<rparr>, \<lparr>dx = 0, dy = 0\<rparr>]\<rparr>"
  let ?ok = "image_loads \<lparr>width = 800, height = 800\<rparr> 400"
  let ?s = "drawMap ?ok ?init"
  have c0: "canvasRef ?init = Some \<lparr>width = 300, height = 150, ctx = default_context\<rparr>"
    by (simp add: App_mounted_def)
  have l0: "load ?ok = Load \<lparr>width = 800, height = 800\<rparr>" by (simp add: image_loads_def)
  have h1: "canvasRef ?s = Some (onload_canvas ?ok \<lparr>width = 800, height = 800\<rparr> (deaths ?init))"
    using c0 l0 by (simp add: drawMap_eq img_onload_canvas)
  have h2: "load (image_fails 400) = Error" by (simp add: image_fails_def)
  have w: "width (onload_canvas ?ok \<lparr>width = 800, height = 800\<rparr> (deaths ?init)) = 400
           \<and> height (onload_canvas ?ok \<lparr>width = 800, height = 800\<rparr> (deaths ?init)) = 400"
    by (simp add: onload_canvas_def Let_def HOTSPOTS_def image_loads_def whole_pixels_def
        App_mounted_def clearRect_def drawImage_def beginPath_def arc_def set_fillStyle_def
        set_strokeStyle_def set_lineWidth_def fill_def stroke_def)
  have st: "canvasDimensions ?s = \<lparr>width = 400, height = 400\<rparr>
      \<and> deaths ?s = [\<lparr>dx = 800, dy = 800\<rparr>, \<lparr>dx = 0, dy = 0\<rparr>]"
    using drawMap_loaded_state[OF c0 l0] by (simp add: image_loads_def App_mounted_def)
  show ?thesis
    using h1 h2 w st drawMap_error_frame[OF h1 h2] by auto
qed

section \<open>Resizing before the map has loaded\<close>

text \<open>
  C10. While \<^verbatim>\<open>mapLoaded\<close> is false, the listener of \<^verbatim>\<open>resize\<close> does not call
  \<^verbatim>\<open>drawMap\<close>: any number of resize events, whatever the browser would answer to a load,
  leaves the whole state, the surface included, as it was.
\<close>

theorem handleResize_before_load:
  assumes "\<not> mapLoaded s"
  shows "fold handleResize bs s = s"
  using assms by (induction bs) (simp_all add: handleResize_eq)

text \<open>
  The theorem for two resize events, on the component just mounted and on the component
  after a first load that failed.
\<close>

theorem handleResize_before_load_witness:
  "\<not> mapLoaded App_mounted
   \<and> fold handleResize [image_loads \<lparr>width = 800, height = 800\<rparr> 400, image_fails 300]
       App_mounted = App_mounted
   \<and> \<not> mapLoaded (drawMap (image_fails 400) App_mounted)
   \<and> fold handleResize [image_loads \<lparr>width = 800, height = 800\<rparr> 400, image_fails 300]
       (drawMap (image_fails 400) App_mounted) = drawMap (image_fails 400) App_mounted"
proof -
  have h1: "\<not> mapLoaded App_mounted" by (simp add: App_mounted_def)
  have h2: "\<not> mapLoaded (drawMap (image_fails 400) App_mounted)"
    by (simp add: drawMap_eq img_onerror_def image_fails_def App_mounted_def Let_def)
  show ?thesis
    using h1 h2
      handleResize_before_load[OF h1,
        of "[image_loads \<lparr>width = 800, height = 800\<rparr> 400, image_fails 300]"]
      handleResize_before_load[OF h2,
        of "[image_loads \<lparr>width = 800, height = 800\<rparr> 400, image_fails 300]"]
    by blast
qed


section \<open>The hotspot table\<close>

text \<open>No operation of the program changes the table that it finds in the state.\<close>

lemma program_generateDeathData_hotspots:
  "program_generateDeathData arg m = Inr (ds, m') \<Longrightarrow> hotspots m' = hotspots m"
  by (auto simp: program_generateDeathData_def split: sum.splits)

lemma step_hotspots: "step e m = Inr m' \<Longrightarrow> hotspots m' = hotspots m"
  by (cases e)
     (auto simp: program_drawMap_def program_handleResize_def
        dest: program_generateDeathData_hotspots split: sum.splits)

lemma run_hotspots: "run evs m = Inr m' \<Longrightarrow> hotspots m' = hotspots m"
proof (induction evs arbitrary: m)
  case Nil
  then show ?case by simp
next
  case (Cons e evs)
  from Cons.prems obtain m1 where s: "step e m = Inr m1" and r: "run evs m1 = Inr m'"
    by (auto split: sum.splits)
  from Cons.IH[OF r] step_hotspots[OF s] show ?case by simp
qed

text \<open>On the table of the program and draws of the unit interval, nothing throws.\<close>

lemma program_generateDeathData_total:
  assumes "hotspots m = HOTSPOTS" "valid_rng (draws m)"
  shows "\<exists>ds m'. program_generateDeathData arg m = Inr (ds, m') \<and> valid_rng (draws m')"
proof -
  have ne: "HOTSPOTS \<noteq> []" by (simp add: HOTSPOTS_def)
  from loop_total[OF assms(2) ne, of "[]" "case arg of None \<Rightarrow> 2000 | Some n \<Rightarrow> n" 0]
  obtain ds g' where
    "generateDeathData_loop HOTSPOTS (case arg of None \<Rightarrow> 2000 | Some n \<Rightarrow> n) 0 (draws m) []
       = Inr (ds, g')" "valid_rng g'"
    by auto
  then show ?thesis
    using assms(1) by (simp add: program_generateDeathData_def generateDeathData_with_def)
qed

lemma step_total:
  assumes "hotspots m = HOTSPOTS" "valid_rng (draws m)"
  shows "\<exists>m'. step e m = Inr m' \<and> valid_rng (draws m')"
proof (cases e)
  case Generate
  from program_generateDeathData_total[OF assms, of "Some 5000"]
  obtain ds m1 where "program_generateDeathData (Some 5000) m = Inr (ds, m1)"
    "valid_rng (draws m1)" by blast
  then show ?thesis using Generate by simp
next
  case (Draw b)
  then show ?thesis using assms(2) by (simp add: program_drawMap_def)
next
  case (Resize b)
  then show ?thesis using assms(2) by (simp add: program_handleResize_def)
qed

lemma run_total:
  assumes "hotspots m = HOTSPOTS" "valid_rng (draws m)"
  shows "\<exists>m'. run evs m = Inr m'"
  using assms
proof (induction evs arbitrary: m)
  case Nil
  then show ?case by simp
next
  case (Cons e evs)
  from step_total[OF Cons.prems, of e]
  obtain m1 where s: "step e m = Inr m1" and v: "valid_rng (draws m1)" by blast
  have "hotspots m1 = HOTSPOTS" using step_hotspots[OF s] Cons.prems(1) by simp
  from Cons.IH[OF this v] s show ?case by simp
qed

text \<open>
  C9. The hotspot table has exactly five entries, and each of them has its centre in
  \<open>[0, 800] \<times> [0, 800]\<close>, a positive radius, a density in \<open>(0, 1]\<close> and a name that is not
  empty. No operation modifies it: from a state of the module whose table is the one of
  the static initialization (and with draws of the unit interval), a call of
  \<^verbatim>\<open>generateDeathData\<close> with any argument returns and leaves a state with that table;
  and every sequence of the events of the component (the effect that generates the
  deaths, calls of \<^verbatim>\<open>drawMap\<close>, loaded or failed, and resize events) runs to its end and
  leaves a state with that table.
\<close>

theorem HOTSPOTS_table:
  assumes "hotspots m = HOTSPOTS" "valid_rng (draws m)"
  shows "length HOTSPOTS = 5 \<and> list_all hotspot_ok HOTSPOTS
    \<and> (\<exists>ds m'. program_generateDeathData arg m = Inr (ds, m') \<and> hotspots m' = HOTSPOTS)
    \<and> (\<exists>m'. run evs m = Inr m' \<and> hotspots m' = HOTSPOTS)"
proof -
  have t: "length HOTSPOTS = 5 \<and> list_all hotspot_ok HOTSPOTS"
    by (simp add: HOTSPOTS_def hotspot_ok_def)
  from program_generateDeathData_total[OF assms, of arg]
  obtain ds m1 where g: "program_generateDeathData arg m = Inr (ds, m1)" by blast
  have g': "hotspots m1 = HOTSPOTS"
    using program_generateDeathData_hotspots[OF g] assms(1) by simp
  from run_total[OF assms, of evs] obtain m2 where r: "run evs m = Inr m2" by blast
  have r': "hotspots m2 = HOTSPOTS" using run_hotspots[OF r] assms(1) by simp
  from t g g' r r' show ?thesis by blast
qed

text \<open>
  The theorem at the module just initialized, with every draw 0: for a call with the
  count 2, and for the run of the effect that generates the deaths, a load of the image,
  a resize and a failed load.
\<close>

theorem HOTSPOTS_table_witness:
  "hotspots (Module_init (\<lambda>n. 0)) = HOTSPOTS \<and> valid_rng (draws (Module_init (\<lambda>n. 0)))
   \<and> length HOTSPOTS = 5 \<and> list_all hotspot_ok HOTSPOTS
   \<and> (\<exists>ds m'. program_generateDeathData (Some 2) (Module_init (\<lambda>n. 0)) = Inr (ds, m')
         \<and> hotspots m' = HOTSPOTS)
   \<and> (\<exists>m'. run [Generate, Draw (image_loads \<lparr>width = 800, height = 800\<rparr> 400),
                 Resize (image_loads \<lparr>width = 800, height = 800\<rparr> 300), Draw (image_fails 300)]
              (Module_init (\<lambda>n. 0)) = Inr m'
         \<and> hotspots m' = HOTSPOTS)"
proof -
  have h1: "hotspots (Module_init (\<lambda>n. 0)) = HOTSPOTS" by (simp add: Module_init_def)
  have h2: "valid_rng (draws (Module_init (\<lambda>n. 0)))"
    by (simp add: Module_init_def valid_rng_def)
  show ?thesis
    using h1 h2
      HOTSPOTS_table[OF h1 h2, of "Some 2"
        "[Generate, Draw (image_loads \<lparr>width = 800, height = 800\<rparr> 400),
          Resize (image_loads \<lparr>width = 800, height = 800\<rparr> 300), Draw (image_fails 300)]"]
    by blast
qed

end
